theory Spec2Isabelle
  imports Main "HOL-Library.Sublist"
begin

section \<open>Python values used by \<^verbatim>\<open>logger.py\<close>\<close>

text \<open>
  An argument of type \<^verbatim>\<open>Optional[str]\<close> is a \<^typ>\<open>string option\<close>. Python's
  truth value of such an argument is false for \<^verbatim>\<open>None\<close> and for the empty string,
  and \<^verbatim>\<open>a or b\<close> is \<^verbatim>\<open>a\<close> when \<^verbatim>\<open>a\<close> is true and \<^verbatim>\<open>b\<close> otherwise.
\<close>

definition truthy :: "string option \<Rightarrow> bool" where
  "truthy v = (case v of None \<Rightarrow> False | Some s \<Rightarrow> s \<noteq> [])"

definition py_or :: "string option \<Rightarrow> string option \<Rightarrow> string option" where
  "py_or a b = (if truthy a then a else b)"

text \<open>
  \<^verbatim>\<open>os.environ\<close> is an association list of variable names and values;
  \<^verbatim>\<open>os.getenv(k)\<close> is \<^verbatim>\<open>None\<close> for an unset variable and
  \<^verbatim>\<open>os.getenv(k, d)\<close> is \<^verbatim>\<open>d\<close> for an unset variable. A variable set to the
  empty string is set.
\<close>

definition getenv :: "(string \<times> string) list \<Rightarrow> string \<Rightarrow> string option" where
  "getenv environ k = map_of environ k"

definition getenv_default :: "(string \<times> string) list \<Rightarrow> string \<Rightarrow> string \<Rightarrow> string option" where
  "getenv_default environ k d = (case map_of environ k of None \<Rightarrow> Some d | Some v \<Rightarrow> Some v)"

text \<open>\<^verbatim>\<open>sep.join(xs)\<close>\<close>

fun join :: "string \<Rightarrow> string list \<Rightarrow> string" where
  "join sep [] = []"
| "join sep [x] = x"
| "join sep (x # y # ys) = x @ sep @ join sep (y # ys)"

text \<open>
  The exceptions that reach this module. \<^verbatim>\<open>ValueError\<close> and \<^verbatim>\<open>TypeError\<close> are
  raised by the module itself and by \<^verbatim>\<open>json.dumps\<close>; \<open>LibraryError\<close> stands for any
  other subclass of \<^verbatim>\<open>Exception\<close> raised by the Google client libraries;
  \<open>NonException\<close> stands for a \<^verbatim>\<open>BaseException\<close> that is not an \<^verbatim>\<open>Exception\<close>
  (\<^verbatim>\<open>KeyboardInterrupt\<close>, \<^verbatim>\<open>SystemExit\<close>), which \<^verbatim>\<open>except Exception\<close> does not catch.
\<close>

datatype py_exception =
    ValueError string
  | TypeError string
  | LibraryError string
  | NonException string

fun isinstance_Exception :: "py_exception \<Rightarrow> bool" where
  "isinstance_Exception (ValueError m) = True"
| "isinstance_Exception (TypeError m) = True"
| "isinstance_Exception (LibraryError m) = True"
| "isinstance_Exception (NonException m) = False"

text \<open>\<^verbatim>\<open>str(e)\<close> of an exception built from one message.\<close>

fun str_exception :: "py_exception \<Rightarrow> string" where
  "str_exception (ValueError m) = m"
| "str_exception (TypeError m) = m"
| "str_exception (LibraryError m) = m"
| "str_exception (NonException m) = m"

section \<open>The external collaborators\<close>

text \<open>
  Credentials, publisher clients and publish futures are opaque handles of the Google
  client libraries. The library calls the module makes are parameters of the model:
  each either raises or returns.
\<close>

type_synonym credentials = nat
type_synonym publisher_client = nat
type_synonym future = nat

record gcp =
  from_service_account_file :: "string \<Rightarrow> py_exception + credentials"
  PublisherClient :: "credentials \<Rightarrow> py_exception + publisher_client"
  publish :: "publisher_client \<Rightarrow> string \<Rightarrow> string \<Rightarrow> py_exception + future"

text \<open>\<^verbatim>\<open>PublisherClient.topic_path(project, topic)\<close> formats the resource name.\<close>

definition topic_path_of :: "string \<Rightarrow> string \<Rightarrow> string" where
  "topic_path_of project topic = ''projects/'' @ project @ ''/topics/'' @ topic"

text \<open>Calls to the module's diagnostic \<^verbatim>\<open>logger\<close>: the level and the formatted message.\<close>

datatype severity = DEBUG | INFO | ERROR

type_synonym diagnostic = "severity \<times> string"

section \<open>\<^verbatim>\<open>EventLogger.__init__\<close>\<close>

record EventLogger =
  project_id :: string
  topic_name :: string
  environment :: string
  service_name :: string
  credentials_path :: string
  publisher :: publisher_client
  topic_path :: string

text \<open>
  The resolved settings, in the order of the \<^verbatim>\<open>required\<close> dictionary, each with the
  name under which it is reported.
\<close>

definition required :: "(string \<times> string) list \<Rightarrow> string option \<Rightarrow> string option \<Rightarrow>
    string option \<Rightarrow> string option \<Rightarrow> string option \<Rightarrow> (string \<times> string option) list" where
  "required environ project_id_arg topic_name_arg environment_arg service_name_arg
      credentials_path_arg =
    [(''LOG_GCP_PROJECT / project_id'',
        py_or project_id_arg (getenv environ ''LOG_GCP_PROJECT'')),
     (''LOG_TOPIC / topic_name'',
        py_or topic_name_arg (getenv_default environ ''LOG_TOPIC'' ''events'')),
     (''LOG_ENVIRONMENT / environment'',
        py_or environment_arg (getenv environ ''LOG_ENVIRONMENT'')),
     (''LOG_SERVICE_NAME / service_name'',
        py_or service_name_arg (getenv environ ''LOG_SERVICE_NAME'')),
     (''LOG_GCP_CREDENTIALS / credentials_path'',
        py_or credentials_path_arg (getenv environ ''LOG_GCP_CREDENTIALS''))]"

definition missing :: "(string \<times> string option) list \<Rightarrow> string list" where
  "missing req = map fst (filter (\<lambda>(name, v). \<not> truthy v) req)"

text \<open>
  The constructor returns the exception it raises or the constructed object, and the
  calls it made to the diagnostic logger. After the check of \<open>missing\<close> every
  resolved setting is a non-empty string, so \<^const>\<open>the\<close> reads it.
\<close>

definition EventLogger_init :: "gcp \<Rightarrow> (string \<times> string) list \<Rightarrow> string option \<Rightarrow>
    string option \<Rightarrow> string option \<Rightarrow> string option \<Rightarrow> string option \<Rightarrow>
    (py_exception + EventLogger) \<times> diagnostic list" where
  "EventLogger_init G environ project_id_arg topic_name_arg environment_arg service_name_arg
      credentials_path_arg =
    (let req = required environ project_id_arg topic_name_arg environment_arg
                 service_name_arg credentials_path_arg;
         vals = map (the \<circ> snd) req
     in if missing req \<noteq> [] then
          (Inl (ValueError (''Missing required config for EventLogger: ''
                  @ join '', '' (missing req))), [])
        else
          (case from_service_account_file G (vals ! 4) of
             Inl e \<Rightarrow> (Inl e, [])
           | Inr creds \<Rightarrow>
               (case PublisherClient G creds of
                  Inl e \<Rightarrow> (Inl e, [])
                | Inr client \<Rightarrow>
                    (let self = \<lparr> project_id = vals ! 0, topic_name = vals ! 1,
                                  environment = vals ! 2, service_name = vals ! 3,
                                  credentials_path = vals ! 4, publisher = client,
                                  topic_path = topic_path_of (vals ! 0) (vals ! 1) \<rparr>
                     in (Inr self,
                         [(DEBUG, ''EventLogger initialized for service='' @ service_name self
                             @ '', environment='' @ environment self
                             @ '', topic='' @ topic_path self)])))))"

section \<open>\<^verbatim>\<open>json.dumps\<close>\<close>

text \<open>
  The values a caller can put into \<^verbatim>\<open>actor\<close> and \<^verbatim>\<open>data\<close>
  (\<^verbatim>\<open>Dict[str, Any]\<close>): a dictionary is an association list in insertion order, and
  \<open>PObject t\<close> is any object of a type \<open>t\<close> that \<^verbatim>\<open>json.dumps\<close> cannot serialise.
  Strings are lists of code points below 256.

  A \<^verbatim>\<open>float\<close> is not-a-number, an infinity, or finite. A finite float is given by
  what the shortest-digits conversion behind \<^verbatim>\<open>float.__repr__\<close> yields for it: its
  sign (\<open>True\<close> for negative), the number \<open>m\<close> spelt by its significant decimal
  digits \<open>d1...dn\<close>, and the position \<open>p\<close> of the decimal point, so that its
  magnitude is \<open>0.d1...dn * 10 ^ p\<close>. Zero has the digits \<open>0\<close> and the position 1.
\<close>

datatype pyfloat =
    Finite bool nat int
  | NaN
  | PosInf
  | NegInf

datatype pyval =
    PNone
  | PBool bool
  | PInt int
  | PFloat pyfloat
  | PStr string
  | PList "pyval list"
  | PDict "(string \<times> pyval) list"
  | PObject string

type_synonym pydict = "(string \<times> pyval) list"

fun first_some :: "'a option list \<Rightarrow> 'a option" where
  "first_some [] = None"
| "first_some (None # xs) = first_some xs"
| "first_some (Some x # xs) = Some x"

text \<open>The type name of the first object, in the order of traversal, that cannot be serialised.\<close>

fun unserializable :: "pyval \<Rightarrow> string option" where
  "unserializable (PObject t) = Some t"
| "unserializable (PList xs) = first_some (map unserializable xs)"
| "unserializable (PDict kvs) = first_some (map (\<lambda>kv. unserializable (snd kv)) kvs)"
| "unserializable v = None"

definition digit :: "nat \<Rightarrow> char" where
  "digit n = ''0123456789'' ! n"

function dec_nat :: "nat \<Rightarrow> string" where
  "dec_nat n = (if n < 10 then [digit n] else dec_nat (n div 10) @ [digit (n mod 10)])"
  by pat_completeness auto
termination
  by (relation "measure id") auto

declare dec_nat.simps [simp del]

definition str_int :: "int \<Rightarrow> string" where
  "str_int i = (if i < 0 then CHR ''-'' # dec_nat (nat (- i)) else dec_nat (nat i))"

text \<open>\<^verbatim>\<open>"%0wd" % n\<close>: at least \<open>w\<close> digits, padded with zeros on the left.\<close>

definition zero_pad :: "nat \<Rightarrow> nat \<Rightarrow> string" where
  "zero_pad w n = replicate (w - length (dec_nat n)) CHR ''0'' @ dec_nat n"

text \<open>
  \<^verbatim>\<open>float.__repr__\<close> of a finite float: exponent notation when the position of the
  point is at most \<open>-4\<close> or above 16, with a sign and at least two digits in the
  exponent \<open>p - 1\<close>; otherwise positional notation, which always has a point, with
  \<^verbatim>\<open>.0\<close> after an integral value.
\<close>

definition float_repr :: "bool \<Rightarrow> nat \<Rightarrow> int \<Rightarrow> string" where
  "float_repr negative m decpt =
    (let ds = dec_nat m;
         n = int (length ds);
         p = (if m = 0 then 1 else decpt)
     in (if negative then ''-'' else []) @
        (if p \<le> - 4 \<or> 16 < p then
           hd ds # (if tl ds = [] then [] else ''.'' @ tl ds)
             @ ''e'' @ (if p - 1 < 0 then ''-'' else ''+'') @ zero_pad 2 (nat (abs (p - 1)))
         else if p \<le> 0 then ''0.'' @ replicate (nat (- p)) CHR ''0'' @ ds
         else if n \<le> p then ds @ replicate (nat (p - n)) CHR ''0'' @ ''.0''
         else take (nat p) ds @ ''.'' @ drop (nat p) ds))"

text \<open>
  \<^verbatim>\<open>floatstr\<close> of \<^verbatim>\<open>json.encoder\<close>; \<^verbatim>\<open>json.dumps\<close> is called without
  \<^verbatim>\<open>allow_nan=False\<close>, so the three non-finite floats are written by name.
\<close>

fun floatstr :: "pyfloat \<Rightarrow> string" where
  "floatstr NaN = ''NaN''"
| "floatstr PosInf = ''Infinity''"
| "floatstr NegInf = ''-Infinity''"
| "floatstr (Finite negative m decpt) = float_repr negative m decpt"

definition hex_digit :: "nat \<Rightarrow> char" where
  "hex_digit n = ''0123456789abcdef'' ! n"

text \<open>
  \<^verbatim>\<open>json.encoder.py_encode_basestring_ascii\<close>: the quotation mark, the backslash and
  every character outside \<^verbatim>\<open>' '..'~'\<close> are escaped.
\<close>

definition escape_char :: "char \<Rightarrow> string" where
  "escape_char c =
    (let n = (of_char c :: nat) in
     if c = CHR 0x22 then [CHR 0x5C, CHR 0x22]
     else if c = CHR 0x5C then [CHR 0x5C, CHR 0x5C]
     else if c = CHR 0x0A then [CHR 0x5C, CHR ''n'']
     else if c = CHR 0x0D then [CHR 0x5C, CHR ''r'']
     else if c = CHR 0x09 then [CHR 0x5C, CHR ''t'']
     else if c = CHR 0x0C then [CHR 0x5C, CHR ''f'']
     else if c = CHR 0x08 then [CHR 0x5C, CHR ''b'']
     else if n < 0x20 \<or> 0x7E < n then
       [CHR 0x5C, CHR ''u'', hex_digit (n div 4096 mod 16), hex_digit (n div 256 mod 16),
        hex_digit (n div 16 mod 16), hex_digit (n mod 16)]
     else [c])"

definition encode_basestring_ascii :: "string \<Rightarrow> string" where
  "encode_basestring_ascii s = CHR 0x22 # concat (map escape_char s) @ [CHR 0x22]"

text \<open>
  The text \<^verbatim>\<open>json.dumps\<close> produces with its default separators \<^verbatim>\<open>", "\<close> and
  \<^verbatim>\<open>": "\<close>. \<open>encode\<close> is only used on values without a \<open>PObject\<close>.
\<close>

fun encode :: "pyval \<Rightarrow> string" where
  "encode PNone = ''null''"
| "encode (PBool b) = (if b then ''true'' else ''false'')"
| "encode (PInt i) = str_int i"
| "encode (PFloat f) = floatstr f"
| "encode (PStr s) = encode_basestring_ascii s"
| "encode (PList xs) = ''['' @ join '', '' (map encode xs) @ '']''"
| "encode (PDict kvs) =
     ''{'' @ join '', '' (map (\<lambda>kv. encode_basestring_ascii (fst kv) @ '': '' @ encode (snd kv)) kvs)
       @ ''}''"
| "encode (PObject t) = []"

definition json_dumps :: "pyval \<Rightarrow> py_exception + string" where
  "json_dumps v =
    (case unserializable v of
       Some t \<Rightarrow> Inl (TypeError (''Object of type '' @ t @ '' is not JSON serializable''))
     | None \<Rightarrow> Inr (encode v))"

text \<open>No float in the value is not-a-number or an infinity.\<close>

fun finite_floats :: "pyval \<Rightarrow> bool" where
  "finite_floats (PFloat f) = (f \<noteq> NaN \<and> f \<noteq> PosInf \<and> f \<noteq> NegInf)"
| "finite_floats (PList xs) = (\<forall>x \<in> set xs. finite_floats x)"
| "finite_floats (PDict kvs) = (\<forall>kv \<in> set kvs. finite_floats (snd kv))"
| "finite_floats v = True"

section \<open>\<^verbatim>\<open>datetime.now(timezone.utc).isoformat()\<close> and \<^verbatim>\<open>str.replace\<close>\<close>

record datetime =
  year :: nat
  month :: nat
  day :: nat
  hour :: nat
  minute :: nat
  second :: nat
  microsecond :: nat

definition is_leap :: "nat \<Rightarrow> bool" where
  "is_leap y = (y mod 4 = 0 \<and> (y mod 100 \<noteq> 0 \<or> y mod 400 = 0))"

definition days_in_month :: "nat \<Rightarrow> nat \<Rightarrow> nat" where
  "days_in_month y m =
    (if m = 2 then (if is_leap y then 29 else 28)
     else if m = 4 \<or> m = 6 \<or> m = 9 \<or> m = 11 then 30 else 31)"

text \<open>The values a \<^verbatim>\<open>datetime\<close> object can hold.\<close>

definition valid_datetime :: "datetime \<Rightarrow> bool" where
  "valid_datetime d =
    (1 \<le> year d \<and> year d \<le> 9999 \<and> 1 \<le> month d \<and> month d \<le> 12 \<and>
     1 \<le> day d \<and> day d \<le> days_in_month (year d) (month d) \<and>
     hour d < 24 \<and> minute d < 60 \<and> second d < 60 \<and> microsecond d < 1000000)"

text \<open>
  \<^verbatim>\<open>isoformat()\<close> of a datetime whose time zone is \<^verbatim>\<open>timezone.utc\<close>: the fraction
  is left out when the microsecond is zero, and the offset is always \<^verbatim>\<open>+00:00\<close>.
\<close>

definition isoformat :: "datetime \<Rightarrow> string" where
  "isoformat d =
    zero_pad 4 (year d) @ ''-'' @ zero_pad 2 (month d) @ ''-'' @ zero_pad 2 (day d) @ ''T''
    @ zero_pad 2 (hour d) @ '':'' @ zero_pad 2 (minute d) @ '':'' @ zero_pad 2 (second d)
    @ (if microsecond d \<noteq> 0 then ''.'' @ zero_pad 6 (microsecond d) else [])
    @ ''+00:00''"

text \<open>
  \<^verbatim>\<open>s.replace(old, new)\<close>: every occurrence of \<open>old\<close>, found from the left and not
  overlapping, becomes \<open>new\<close>; an empty \<open>old\<close> matches before every character and at
  the end.
\<close>

function replace_nonempty :: "string \<Rightarrow> string \<Rightarrow> string \<Rightarrow> string" where
  "replace_nonempty old new [] = []"
| "replace_nonempty old new (c # cs) =
    (if old \<noteq> [] \<and> prefix old (c # cs)
     then new @ replace_nonempty old new (drop (length old) (c # cs))
     else c # replace_nonempty old new cs)"
  by pat_completeness auto
termination
  by (relation "measure (\<lambda>(old, new, s). length s)") auto

definition replace :: "string \<Rightarrow> string \<Rightarrow> string \<Rightarrow> string" where
  "replace old new s =
    (if old = [] then new @ concat (map (\<lambda>c. c # new) s) else replace_nonempty old new s)"

text \<open>
  An independent reader of UTC timestamps in the extended ISO-8601 format
  \<^verbatim>\<open>YYYY-MM-DDThh:mm:ss[.ffffff]Z\<close>: it accepts exactly the strings of that shape whose
  fields denote a date and a time of day, and returns them.
\<close>

definition is_digit :: "char \<Rightarrow> bool" where
  "is_digit c = (c \<in> set ''0123456789'')"

definition digit_value :: "char \<Rightarrow> nat" where
  "digit_value c = of_char c - 48"

definition number :: "string \<Rightarrow> nat" where
  "number s = foldl (\<lambda>acc c. 10 * acc + digit_value c) 0 s"

definition field :: "nat \<Rightarrow> nat \<Rightarrow> string \<Rightarrow> string" where
  "field i w s = take w (drop i s)"

definition parse_iso8601_utc :: "string \<Rightarrow> datetime option" where
  "parse_iso8601_utc s =
    (let n = length s;
         digits = field 0 4 s @ field 5 2 s @ field 8 2 s @ field 11 2 s @ field 14 2 s
                    @ field 17 2 s @ (if n = 27 then field 20 6 s else [])
     in if (n = 20 \<or> n = 27) \<and> field 4 1 s = ''-'' \<and> field 7 1 s = ''-'' \<and> field 10 1 s = ''T''
           \<and> field 13 1 s = '':'' \<and> field 16 1 s = '':'' \<and> (n = 27 \<longrightarrow> field 19 1 s = ''.'')
           \<and> field (n - 1) 1 s = ''Z'' \<and> list_all is_digit digits
        then (let d = \<lparr> year = number (field 0 4 s), month = number (field 5 2 s),
                         day = number (field 8 2 s), hour = number (field 11 2 s),
                         minute = number (field 14 2 s), second = number (field 17 2 s),
                         microsecond = (if n = 27 then number (field 20 6 s) else 0) \<rparr>
              in if valid_datetime d then Some d else None)
        else None)"

section \<open>\<^verbatim>\<open>EventLogger._build_event\<close>\<close>

text \<open>
  What a call reads from outside the program: the strings of the two \<^verbatim>\<open>uuid.uuid4()\<close>
  calls (the second is made only when no correlation id is given) and the clock.
\<close>

record ambient =
  uuid4_first :: string
  uuid4_second :: string
  utc_now :: datetime

text \<open>The event is the dictionary literal of the source, in its order; every value is a string.\<close>

type_synonym event = "(string \<times> string) list"

definition or_else :: "string option \<Rightarrow> string \<Rightarrow> string" where
  "or_else a d = (case a of None \<Rightarrow> d | Some s \<Rightarrow> if s \<noteq> [] then s else d)"

definition or_empty :: "pydict option \<Rightarrow> pydict" where
  "or_empty a = (case a of None \<Rightarrow> [] | Some kvs \<Rightarrow> if kvs \<noteq> [] then kvs else [])"

definition build_event :: "ambient \<Rightarrow> EventLogger \<Rightarrow> string \<Rightarrow> string \<Rightarrow> pydict option \<Rightarrow>
    string option \<Rightarrow> string option \<Rightarrow> pydict option \<Rightarrow> py_exception + event" where
  "build_event amb self event_type level data service correlation_id actor =
    (let service_name' = or_else service (service_name self);
         actor_obj = or_empty actor;
         data_obj = or_empty data;
         event_id = uuid4_first amb;
         correlation_id' = or_else correlation_id (uuid4_second amb);
         created_at = replace ''+00:00'' ''Z'' (isoformat (utc_now amb))
     in case json_dumps (PDict actor_obj) of
          Inl e \<Rightarrow> Inl e
        | Inr actor_json \<Rightarrow>
            (case json_dumps (PDict data_obj) of
               Inl e \<Rightarrow> Inl e
             | Inr data_json \<Rightarrow>
                 Inr [(''event_id'', event_id),
                      (''correlation_id'', correlation_id'),
                      (''service'', service_name'),
                      (''event_type'', event_type),
                      (''level'', level),
                      (''environment'', environment self),
                      (''created_at'', created_at),
                      (''actor'', actor_json),
                      (''data'', data_json)]))"

section \<open>\<^verbatim>\<open>EventLogger.log_event\<close> and the levelled methods\<close>

text \<open>
  The payload is \<^verbatim>\<open>json.dumps(event).encode("utf-8")\<close>; the text is ASCII, so the
  bytes are its characters. \<^verbatim>\<open>except Exception\<close> catches the exceptions for which
  \<^const>\<open>isinstance_Exception\<close> holds; any other propagates.
\<close>

definition log_event :: "gcp \<Rightarrow> ambient \<Rightarrow> EventLogger \<Rightarrow> string \<Rightarrow> string \<Rightarrow> pydict option \<Rightarrow>
    string option \<Rightarrow> string option \<Rightarrow> pydict option \<Rightarrow>
    (py_exception + event \<times> future option) \<times> diagnostic list" where
  "log_event G amb self event_type level data service correlation_id actor =
    (case build_event amb self event_type level data service correlation_id actor of
       Inl e \<Rightarrow> (Inl e, [])
     | Inr event \<Rightarrow>
         (case json_dumps (PDict (map (\<lambda>(k, v). (k, PStr v)) event)) of
            Inl e \<Rightarrow> (Inl e, [])
          | Inr payload \<Rightarrow>
              (let event_id = the (map_of event ''event_id'');
                   d1 = (INFO, ''[EventLogger] '' @ event_type @ '' '' @ level @ '' - '' @ event_id)
               in case publish G (publisher self) (topic_path self) payload of
                    Inr fut \<Rightarrow>
                      (Inr (event, Some fut),
                       [d1, (DEBUG, ''Published event '' @ event_id @ '' to '' @ topic_path self)])
                  | Inl e \<Rightarrow>
                      if isinstance_Exception e
                      then (Inr (event, None),
                            [d1, (ERROR, ''Failed to publish event to Pub/Sub: '' @ str_exception e)])
                      else (Inl e, [d1]))))"

text \<open>The methods take their parameters in the order of the source.\<close>

definition log :: "gcp \<Rightarrow> ambient \<Rightarrow> EventLogger \<Rightarrow> string \<Rightarrow> string \<Rightarrow> string option \<Rightarrow>
    pydict option \<Rightarrow> pydict option \<Rightarrow> string option \<Rightarrow>
    (py_exception + event \<times> future option) \<times> diagnostic list" where
  "log G amb self level event_type correlation_id data actor service =
    log_event G amb self event_type level (Some (or_empty data)) service correlation_id actor"

definition debug :: "gcp \<Rightarrow> ambient \<Rightarrow> EventLogger \<Rightarrow> string \<Rightarrow> string option \<Rightarrow>
    pydict option \<Rightarrow> pydict option \<Rightarrow> string option \<Rightarrow>
    (py_exception + event \<times> future option) \<times> diagnostic list" where
  "debug G amb self event_type correlation_id data actor service =
    log_event G amb self event_type ''debug'' (Some (or_empty data)) service correlation_id actor"

definition info :: "gcp \<Rightarrow> ambient \<Rightarrow> EventLogger \<Rightarrow> string \<Rightarrow> string option \<Rightarrow>
    pydict option \<Rightarrow> pydict option \<Rightarrow> string option \<Rightarrow>
    (py_exception + event \<times> future option) \<times> diagnostic list" where
  "info G amb self event_type correlation_id data actor service =
    log_event G amb self event_type ''info'' (Some (or_empty data)) service correlation_id actor"

definition warning :: "gcp \<Rightarrow> ambient \<Rightarrow> EventLogger \<Rightarrow> string \<Rightarrow> string option \<Rightarrow>
    pydict option \<Rightarrow> pydict option \<Rightarrow> string option \<Rightarrow>
    (py_exception + event \<times> future option) \<times> diagnostic list" where
  "warning G amb self event_type correlation_id data actor service =
    log_event G amb self event_type ''warning'' (Some (or_empty data)) service correlation_id actor"

definition error :: "gcp \<Rightarrow> ambient \<Rightarrow> EventLogger \<Rightarrow> string \<Rightarrow> string option \<Rightarrow>
    pydict option \<Rightarrow> pydict option \<Rightarrow> string option \<Rightarrow>
    (py_exception + event \<times> future option) \<times> diagnostic list" where
  "error G amb self event_type correlation_id data actor service =
    log_event G amb self event_type ''error'' (Some (or_empty data)) service correlation_id actor"

section \<open>\<^verbatim>\<open>NoOpEventLogger\<close> and the module's global logger\<close>

text \<open>
  \<^verbatim>\<open>__getattr__\<close> answers every attribute name with the function \<^verbatim>\<open>_noop\<close>, which
  takes any arguments and returns the empty dictionary and \<^verbatim>\<open>None\<close>.
\<close>

definition noop :: "'args \<Rightarrow> event \<times> future option" where
  "noop args = ([], None)"

definition NoOpEventLogger_getattr :: "string \<Rightarrow> 'args \<Rightarrow> event \<times> future option" where
  "NoOpEventLogger_getattr name = noop"

datatype logger = Real EventLogger | NoOp

text \<open>
  The state of the module is the global \<^verbatim>\<open>_event_logger\<close>, \<^verbatim>\<open>None\<close> at import.
  The assignment in \<^verbatim>\<open>init_event_logger\<close> happens after the constructor has returned.
\<close>

type_synonym module_state = "logger option"

definition initial_state :: module_state where
  "initial_state = None"

definition init_event_logger :: "gcp \<Rightarrow> (string \<times> string) list \<Rightarrow> module_state \<Rightarrow>
    string option \<Rightarrow> string option \<Rightarrow> string option \<Rightarrow> string option \<Rightarrow> string option \<Rightarrow>
    ((py_exception + EventLogger) \<times> diagnostic list) \<times> module_state" where
  "init_event_logger G environ st project_id_arg topic_name_arg environment_arg
      service_name_arg credentials_path_arg =
    (case EventLogger_init G environ project_id_arg topic_name_arg environment_arg
            service_name_arg credentials_path_arg of
       (Inl e, ds) \<Rightarrow> ((Inl e, ds), st)
     | (Inr self, ds) \<Rightarrow>
         ((Inr self,
           ds @ [(INFO, ''EventLogger initialized for service='' @ service_name self
                    @ '', environment='' @ environment self)]),
          Some (Real self)))"

definition get_event_logger :: "module_state \<Rightarrow> logger \<times> diagnostic list" where
  "get_event_logger st =
    (case st of
       None \<Rightarrow> (NoOp, [(DEBUG, ''EventLogger not initialized, using NoOpEventLogger'')])
     | Some l \<Rightarrow> (l, []))"

text \<open>Reading a field of the event a call returned; \<open>None\<close> when the call raised.\<close>

definition field_of :: "py_exception + event \<Rightarrow> string \<Rightarrow> string option" where
  "field_of r k = (case r of Inl e \<Rightarrow> None | Inr ev \<Rightarrow> map_of ev k)"

text \<open>
  The \<open>w\<close> low decimal digits of \<open>n\<close>; this is what \<^const>\<open>zero_pad\<close> produces
  for a number below \<open>10 ^ w\<close>.
\<close>

fun pad_digits :: "nat \<Rightarrow> nat \<Rightarrow> string" where
  "pad_digits 0 n = []"
| "pad_digits (Suc w) n = pad_digits w (n div 10) @ [digit (n mod 10)]"

section \<open>JSON texts\<close>

text \<open>
  The grammar of RFC 8259: insignificant whitespace, strings with their escapes, numbers,
  and the mutually recursive values, objects and arrays. It is independent of
  \<^const>\<open>encode\<close>.
\<close>

definition ws_char :: "char \<Rightarrow> bool" where
  "ws_char c = (c \<in> set [CHR 0x20, CHR 0x09, CHR 0x0A, CHR 0x0D])"

definition json_ws :: "string \<Rightarrow> bool" where
  "json_ws s = list_all ws_char s"

definition is_hex :: "char \<Rightarrow> bool" where
  "is_hex c = (c \<in> set ''0123456789abcdefABCDEF'')"

text \<open>
  The characters between the quotation marks of a string: unescaped characters from
  \<^verbatim>\<open>U+0020\<close> on other than the quotation mark and the backslash, two-character
  escapes, and \<^verbatim>\<open>\u\<close> followed by four hexadecimal digits.
\<close>

fun json_chars :: "string \<Rightarrow> bool" where
  "json_chars [] = True"
| "json_chars (c # cs) =
    (if c = CHR 0x5C then
       (case cs of
          [] \<Rightarrow> False
        | e # r \<Rightarrow>
            if e = CHR ''u'' then
              (case r of
                 h1 # h2 # h3 # h4 # r' \<Rightarrow>
                   is_hex h1 \<and> is_hex h2 \<and> is_hex h3 \<and> is_hex h4 \<and> json_chars r'
               | _ \<Rightarrow> False)
            else e \<in> set [CHR 0x22, CHR 0x5C, CHR ''/'', CHR ''b'', CHR ''f'', CHR ''n'',
                           CHR ''r'', CHR ''t''] \<and> json_chars r)
     else (0x20 :: nat) \<le> of_char c \<and> c \<noteq> CHR 0x22 \<and> json_chars cs)"

definition json_string :: "string \<Rightarrow> bool" where
  "json_string s = (\<exists>body. s = CHR 0x22 # body @ [CHR 0x22] \<and> json_chars body)"

definition json_digits :: "string \<Rightarrow> bool" where
  "json_digits s = (s \<noteq> [] \<and> list_all is_digit s)"

definition json_number :: "string \<Rightarrow> bool" where
  "json_number s =
    (\<exists>sign int frac exp.
       s = sign @ int @ frac @ exp
       \<and> (sign = [] \<or> sign = ''-'')
       \<and> json_digits int \<and> (hd int = CHR ''0'' \<longrightarrow> int = ''0'')
       \<and> (frac = [] \<or> (\<exists>ds. frac = CHR ''.'' # ds \<and> json_digits ds))
       \<and> (exp = [] \<or> (\<exists>e sg ds. exp = e # sg @ ds \<and> (e = CHR ''e'' \<or> e = CHR ''E'')
                           \<and> (sg = [] \<or> sg = ''+'' \<or> sg = ''-'') \<and> json_digits ds)))"

inductive json_value :: "string \<Rightarrow> bool"
  and json_object :: "string \<Rightarrow> bool"
  and json_array :: "string \<Rightarrow> bool"
  and json_members :: "string \<Rightarrow> bool"
  and json_elements :: "string \<Rightarrow> bool"
where
  value_null: "json_value ''null''"
| value_true: "json_value ''true''"
| value_false: "json_value ''false''"
| value_number: "json_number s \<Longrightarrow> json_value s"
| value_string: "json_string s \<Longrightarrow> json_value s"
| value_array: "json_array s \<Longrightarrow> json_value s"
| value_object: "json_object s \<Longrightarrow> json_value s"
| object_empty: "json_ws w \<Longrightarrow> json_object (''{'' @ w @ ''}'')"
| object_members: "json_members ms \<Longrightarrow> json_object (''{'' @ ms @ ''}'')"
| array_empty: "json_ws w \<Longrightarrow> json_array (''['' @ w @ '']'')"
| array_elements: "json_elements es \<Longrightarrow> json_array (''['' @ es @ '']'')"
| members_one:
    "json_ws w1 \<Longrightarrow> json_string k \<Longrightarrow> json_ws w2 \<Longrightarrow> json_ws w3 \<Longrightarrow> json_value v \<Longrightarrow> json_ws w4
     \<Longrightarrow> json_members (w1 @ k @ w2 @ '':'' @ w3 @ v @ w4)"
| members_more:
    "json_ws w1 \<Longrightarrow> json_string k \<Longrightarrow> json_ws w2 \<Longrightarrow> json_ws w3 \<Longrightarrow> json_value v \<Longrightarrow> json_ws w4
     \<Longrightarrow> json_members ms \<Longrightarrow> json_members (w1 @ k @ w2 @ '':'' @ w3 @ v @ w4 @ '','' @ ms)"
| elements_one:
    "json_ws w1 \<Longrightarrow> json_value v \<Longrightarrow> json_ws w2 \<Longrightarrow> json_elements (w1 @ v @ w2)"
| elements_more:
    "json_ws w1 \<Longrightarrow> json_value v \<Longrightarrow> json_ws w2 \<Longrightarrow> json_elements es
     \<Longrightarrow> json_elements (w1 @ v @ w2 @ '','' @ es)"

text \<open>A collaborator whose every call returns, and one whose publish raises.\<close>

definition gcp_ok :: gcp where
  "gcp_ok = \<lparr> from_service_account_file = (\<lambda>p. Inr 1),
              PublisherClient = (\<lambda>c. Inr 2),
              publish = (\<lambda>c t p. Inr 3) \<rparr>"

definition gcp_down :: gcp where
  "gcp_down = \<lparr> from_service_account_file = (\<lambda>p. Inr 1),
                PublisherClient = (\<lambda>c. Inr 2),
                publish = (\<lambda>c t p. Inl (LibraryError ''deadline exceeded'')) \<rparr>"

text \<open>A constructed logger and one reading of the identifier source and the clock.\<close>

definition sample_logger :: EventLogger where
  "sample_logger = \<lparr> project_id = ''acme'', topic_name = ''events'', environment = ''prod'',
      service_name = ''checkout-api'', credentials_path = ''/etc/key.json'', publisher = 2,
      topic_path = ''projects/acme/topics/events'' \<rparr>"

definition sample_ambient :: ambient where
  "sample_ambient = \<lparr> uuid4_first = ''1b4e28ba-2fa1-41d2-883f-0016d3cca427'',
      uuid4_second = ''6fa459ea-ee8a-4ca4-894e-db77e160355e'',
      utc_now = \<lparr> year = 2024, month = 2, day = 29, hour = 23, minute = 59, second = 7,
                   microsecond = 4200 \<rparr> \<rparr>"


section \<open>Construction\<close>

lemmas init_defs = EventLogger_init_def required_def missing_def py_or_def truthy_def
  getenv_def getenv_default_def

text \<open>
  C1 (as stated): constructing with none of the five settings supplied raises an error
  whose message lists all five field names. On the code the topic name falls back to the
  default \<^verbatim>\<open>"events"\<close>, so with nothing supplied it is not missing and the message
  lists four names; the name of the topic setting does not occur in it.
\<close>

theorem init_nothing_supplied_counterexample:
  "fst (EventLogger_init gcp_ok [] None None None None None) =
     Inl (ValueError ''Missing required config for EventLogger: LOG_GCP_PROJECT / project_id, LOG_ENVIRONMENT / environment, LOG_SERVICE_NAME / service_name, LOG_GCP_CREDENTIALS / credentials_path'')
   \<and> \<not> sublist ''topic_name''
         ''Missing required config for EventLogger: LOG_GCP_PROJECT / project_id, LOG_ENVIRONMENT / environment, LOG_SERVICE_NAME / service_name, LOG_GCP_CREDENTIALS / credentials_path''"
  by (simp add: init_defs) code_simp

text \<open>
  C1 (amended): constructing with none of the five settings supplied, neither as a
  parameter (absent or empty) nor in the environment, raises the \<^verbatim>\<open>ValueError\<close> whose
  message lists, in one batch, the four missing names: project id, environment, service
  name and credential path.
\<close>

theorem init_nothing_supplied_lists_four:
  assumes "\<not> truthy p" and "\<not> truthy t" and "\<not> truthy e" and "\<not> truthy s" and "\<not> truthy c"
    and "getenv environ ''LOG_GCP_PROJECT'' = None"
    and "getenv environ ''LOG_TOPIC'' = None"
    and "getenv environ ''LOG_ENVIRONMENT'' = None"
    and "getenv environ ''LOG_SERVICE_NAME'' = None"
    and "getenv environ ''LOG_GCP_CREDENTIALS'' = None"
  shows "EventLogger_init G environ p t e s c =
     (Inl (ValueError ''Missing required config for EventLogger: LOG_GCP_PROJECT / project_id, LOG_ENVIRONMENT / environment, LOG_SERVICE_NAME / service_name, LOG_GCP_CREDENTIALS / credentials_path''), [])"
  using assms by (simp add: init_defs)

theorem init_nothing_supplied_lists_four_witness:
  "EventLogger_init gcp_ok [(''HOME'', ''/root'')] None (Some []) None (Some []) None =
     (Inl (ValueError ''Missing required config for EventLogger: LOG_GCP_PROJECT / project_id, LOG_ENVIRONMENT / environment, LOG_SERVICE_NAME / service_name, LOG_GCP_CREDENTIALS / credentials_path''), [])"
  using init_nothing_supplied_lists_four
    [of None "Some []" None "Some []" None "[(''HOME'', ''/root'')]" gcp_ok]
  by (simp add: truthy_def getenv_def)

text \<open>
  C6: when every setting but the topic name is supplied (as a parameter or in the
  environment), the topic name is supplied in neither way, and the credential and client
  libraries return, construction succeeds and the object's topic name is
  \<^verbatim>\<open>"events"\<close>, which is also the topic of its topic path.
\<close>

theorem init_default_topic:
  assumes "\<not> truthy t" and "getenv environ ''LOG_TOPIC'' = None"
    and "truthy (py_or p (getenv environ ''LOG_GCP_PROJECT''))"
    and "truthy (py_or e (getenv environ ''LOG_ENVIRONMENT''))"
    and "truthy (py_or s (getenv environ ''LOG_SERVICE_NAME''))"
    and "truthy (py_or c (getenv environ ''LOG_GCP_CREDENTIALS''))"
    and "from_service_account_file G (the (py_or c (getenv environ ''LOG_GCP_CREDENTIALS''))) = Inr cr"
    and "PublisherClient G cr = Inr cl"
  shows "\<exists>self. fst (EventLogger_init G environ p t e s c) = Inr self
           \<and> topic_name self = ''events''
           \<and> topic_path self = ''projects/'' @ project_id self @ ''/topics/events''"
  using assms by (simp add: init_defs topic_path_of_def Let_def)

theorem init_default_topic_witness:
  "\<exists>self. fst (EventLogger_init gcp_ok [(''LOG_ENVIRONMENT'', ''prod'')]
              (Some ''acme'') None None (Some ''checkout-api'') (Some ''/etc/key.json'')) = Inr self
           \<and> topic_name self = ''events''
           \<and> topic_path self = ''projects/'' @ project_id self @ ''/topics/events''"
  using init_default_topic [of None "[(''LOG_ENVIRONMENT'', ''prod'')]" "Some ''acme''" None
      "Some ''checkout-api''" "Some ''/etc/key.json''" gcp_ok 1 2]
  by (simp add: truthy_def getenv_def py_or_def gcp_ok_def)


section \<open>Building and publishing an event\<close>

lemma event_serializable:
  "unserializable (PDict (map (\<lambda>(k, v). (k, PStr v)) ev)) = None"
  by (induction ev) auto

lemma dumps_event:
  "json_dumps (PDict (map (\<lambda>(k, v). (k, PStr v)) ev))
     = Inr (encode (PDict (map (\<lambda>(k, v). (k, PStr v)) ev)))"
  using event_serializable [of ev] by (simp only: json_dumps_def option.case)

lemma build_event_Inr:
  assumes "build_event amb self event_type level data service correlation_id actor = Inr ev"
  shows "ev = [(''event_id'', uuid4_first amb),
               (''correlation_id'', or_else correlation_id (uuid4_second amb)),
               (''service'', or_else service (service_name self)),
               (''event_type'', event_type),
               (''level'', level),
               (''environment'', environment self),
               (''created_at'', replace ''+00:00'' ''Z'' (isoformat (utc_now amb))),
               (''actor'', encode (PDict (or_empty actor))),
               (''data'', encode (PDict (or_empty data)))]"
  using assms
  by (auto simp: build_event_def json_dumps_def Let_def split: option.splits sum.splits)

lemma build_event_returns:
  assumes "unserializable (PDict (or_empty actor)) = None"
    and "unserializable (PDict (or_empty data)) = None"
  shows "\<exists>ev. build_event amb self event_type level data service correlation_id actor = Inr ev"
  using assms by (simp add: build_event_def json_dumps_def Let_def)

lemma build_event_plain:
  "\<exists>ev. build_event amb self event_type level None service correlation_id None = Inr ev"
  by (rule build_event_returns) (simp_all add: or_empty_def)

lemma log_event_Inr:
  assumes "fst (log_event G amb self event_type level data service correlation_id actor)
             = Inr (ev, out)"
  shows "build_event amb self event_type level data service correlation_id actor = Inr ev"
  using assms
  by (auto simp: log_event_def dumps_event Let_def split: sum.splits if_splits)

lemma log_event_level:
  assumes "fst (log_event G amb self event_type level data service correlation_id actor)
             = Inr (ev, out)"
  shows "map_of ev ''level'' = Some level"
  using build_event_Inr [OF log_event_Inr [OF assms]] by simp

lemma log_event_returns:
  assumes "unserializable (PDict (or_empty actor)) = None"
    and "unserializable (PDict (or_empty data)) = None"
    and "\<forall>t p e. publish G (publisher self) t p = Inl e \<longrightarrow> isinstance_Exception e"
  shows "\<exists>ev out. fst (log_event G amb self event_type level data service correlation_id actor)
                     = Inr (ev, out)"
proof -
  obtain ev where
    ev: "build_event amb self event_type level data service correlation_id actor = Inr ev"
    using build_event_returns [OF assms(1,2)] by blast
  show ?thesis
    using assms(3) by (auto simp: log_event_def ev dumps_event Let_def split: sum.splits)
qed

lemma or_empty_idem: "or_empty (Some (or_empty d)) = or_empty d"
  by (simp add: or_empty_def split: option.splits)

lemma init_service_nonempty:
  assumes "fst (EventLogger_init G environ p t e s c) = Inr self"
  shows "service_name self \<noteq> []"
  using assms
  by (auto simp: EventLogger_init_def required_def missing_def Let_def truthy_def
           split: if_splits sum.splits option.splits)

lemma init_sample:
  "fst (EventLogger_init gcp_ok [(''LOG_ENVIRONMENT'', ''prod'')]
          (Some ''acme'') None None (Some ''checkout-api'') (Some ''/etc/key.json''))
     = Inr sample_logger"
  by (simp add: init_defs gcp_ok_def sample_logger_def topic_path_of_def Let_def)

text \<open>
  C2: when the event has been built and the transport's publish raises an
  \<^verbatim>\<open>Exception\<close>, \<^verbatim>\<open>log_event\<close> does not raise: it returns the built event, with all
  nine fields, paired with \<^verbatim>\<open>None\<close>.
\<close>

theorem log_event_publish_raises:
  assumes "build_event amb self event_type level data service correlation_id actor = Inr ev"
    and "publish G (publisher self) (topic_path self)
           (encode (PDict (map (\<lambda>(k, v). (k, PStr v)) ev))) = Inl e"
    and "isinstance_Exception e"
  shows "fst (log_event G amb self event_type level data service correlation_id actor)
           = Inr (ev, None)
         \<and> map fst ev = [''event_id'', ''correlation_id'', ''service'', ''event_type'', ''level'',
                          ''environment'', ''created_at'', ''actor'', ''data'']"
proof -
  have "fst (log_event G amb self event_type level data service correlation_id actor)
          = Inr (ev, None)"
    using assms by (simp add: log_event_def dumps_event Let_def)
  moreover have "map fst ev = [''event_id'', ''correlation_id'', ''service'', ''event_type'',
                   ''level'', ''environment'', ''created_at'', ''actor'', ''data'']"
    using build_event_Inr [OF assms(1)] by simp
  ultimately show ?thesis by simp
qed

theorem log_event_publish_raises_witness:
  "\<exists>ev. fst (log_event gcp_down sample_ambient sample_logger ''signup'' ''info'' None None None None)
           = Inr (ev, None)
        \<and> map fst ev = [''event_id'', ''correlation_id'', ''service'', ''event_type'', ''level'',
                         ''environment'', ''created_at'', ''actor'', ''data'']"
proof -
  obtain ev where ev: "build_event sample_ambient sample_logger ''signup'' ''info'' None None None None
                         = Inr ev"
    using build_event_plain by blast
  have "publish gcp_down (publisher sample_logger) (topic_path sample_logger)
          (encode (PDict (map (\<lambda>(k, v). (k, PStr v)) ev))) = Inl (LibraryError ''deadline exceeded'')"
    by (simp add: gcp_down_def)
  from log_event_publish_raises [OF ev this] show ?thesis by auto
qed

text \<open>
  C3 (as stated): a supplied correlation id is the event's correlation id. On the code a
  supplied empty string is replaced by the generated identifier.
\<close>

theorem correlation_id_empty_counterexample:
  "field_of (build_event sample_ambient sample_logger ''signup'' ''info'' None None (Some []) None)
      ''correlation_id'' = Some ''6fa459ea-ee8a-4ca4-894e-db77e160355e''"
  by (simp add: field_of_def build_event_def or_else_def or_empty_def json_dumps_def Let_def
        sample_ambient_def)

text \<open>
  C3 (amended): for every build call in which the caller supplies a non-empty
  correlation id, the event's correlation id is exactly the supplied value.
\<close>

theorem correlation_id_supplied:
  assumes "c \<noteq> []"
    and "build_event amb self event_type level data service (Some c) actor = Inr ev"
  shows "map_of ev ''correlation_id'' = Some c"
  using build_event_Inr [OF assms(2)] assms(1) by (simp add: or_else_def)

theorem correlation_id_supplied_witness:
  "\<exists>ev. build_event sample_ambient sample_logger ''signup'' ''info'' None None (Some ''req-42'') None
           = Inr ev
        \<and> map_of ev ''correlation_id'' = Some ''req-42''"
proof -
  obtain ev where ev: "build_event sample_ambient sample_logger ''signup'' ''info'' None None
                         (Some ''req-42'') None = Inr ev"
    using build_event_plain by blast
  have "''req-42'' \<noteq> []" by simp
  from correlation_id_supplied [OF this ev] ev show ?thesis by blast
qed

text \<open>
  C7: on a logger whose arguments can be serialised and whose transport raises nothing but
  an \<^verbatim>\<open>Exception\<close>, each of \<^verbatim>\<open>debug\<close>, \<^verbatim>\<open>info\<close>, \<^verbatim>\<open>warning\<close> and
  \<^verbatim>\<open>error\<close> returns an event whose level is the name of the method.
\<close>

theorem leveled_methods_level:
  assumes "unserializable (PDict (or_empty actor)) = None"
    and "unserializable (PDict (or_empty data)) = None"
    and "\<forall>t p e. publish G (publisher self) t p = Inl e \<longrightarrow> isinstance_Exception e"
  shows "(\<exists>ev out. fst (debug G amb self event_type correlation_id data actor service) = Inr (ev, out)
            \<and> map_of ev ''level'' = Some ''debug'')
       \<and> (\<exists>ev out. fst (info G amb self event_type correlation_id data actor service) = Inr (ev, out)
            \<and> map_of ev ''level'' = Some ''info'')
       \<and> (\<exists>ev out. fst (warning G amb self event_type correlation_id data actor service) = Inr (ev, out)
            \<and> map_of ev ''level'' = Some ''warning'')
       \<and> (\<exists>ev out. fst (error G amb self event_type correlation_id data actor service) = Inr (ev, out)
            \<and> map_of ev ''level'' = Some ''error'')"
proof -
  have d: "unserializable (PDict (or_empty (Some (or_empty data)))) = None"
    using assms(2) by (simp only: or_empty_idem)
  have "\<exists>ev out. fst (log_event G amb self event_type level (Some (or_empty data)) service
                        correlation_id actor) = Inr (ev, out) \<and> map_of ev ''level'' = Some level"
    for level
    using log_event_returns [OF assms(1) d assms(3)] log_event_level by blast
  then show ?thesis
    unfolding debug_def info_def warning_def error_def by blast
qed

theorem leveled_methods_level_witness:
  "(\<exists>ev out. fst (debug gcp_down sample_ambient sample_logger ''signup'' None None None None)
                 = Inr (ev, out) \<and> map_of ev ''level'' = Some ''debug'')
   \<and> (\<exists>ev out. fst (info gcp_down sample_ambient sample_logger ''signup'' None None None None)
                 = Inr (ev, out) \<and> map_of ev ''level'' = Some ''info'')
   \<and> (\<exists>ev out. fst (warning gcp_down sample_ambient sample_logger ''signup'' None None None None)
                 = Inr (ev, out) \<and> map_of ev ''level'' = Some ''warning'')
   \<and> (\<exists>ev out. fst (error gcp_down sample_ambient sample_logger ''signup'' None None None None)
                 = Inr (ev, out) \<and> map_of ev ''level'' = Some ''error'')"
proof -
  have a: "unserializable (PDict (or_empty None)) = None"
    by (simp add: or_empty_def)
  have p: "\<forall>t p e. publish gcp_down (publisher sample_logger) t p = Inl e
             \<longrightarrow> isinstance_Exception e"
    by (auto simp: gcp_down_def)
  from leveled_methods_level [OF a a p] show ?thesis .
qed

text \<open>
  C9: for a logger the constructor returned, the service of every event it builds is a
  non-empty string: the caller's override when that is a non-empty string, and the
  logger's own service name when the override is absent or empty.
\<close>

theorem service_field_nonempty:
  assumes "fst (EventLogger_init G environ p t e s c) = Inr self"
    and "build_event amb self event_type level data service correlation_id actor = Inr ev"
  shows "\<exists>svc. map_of ev ''service'' = Some svc \<and> svc \<noteq> []
           \<and> (\<forall>x. service = Some x \<and> x \<noteq> [] \<longrightarrow> svc = x)
           \<and> (service = None \<or> service = Some [] \<longrightarrow> svc = service_name self)"
  using build_event_Inr [OF assms(2)] init_service_nonempty [OF assms(1)]
  by (auto simp: or_else_def split: option.splits)

theorem service_field_nonempty_witness:
  "\<exists>ev svc. build_event sample_ambient sample_logger ''signup'' ''info'' None (Some ''billing'')
               None None = Inr ev
        \<and> map_of ev ''service'' = Some svc \<and> svc \<noteq> []
        \<and> (\<forall>x. Some ''billing'' = Some x \<and> x \<noteq> [] \<longrightarrow> svc = x)
        \<and> (Some ''billing'' = None \<or> Some ''billing'' = Some [] \<longrightarrow> svc = service_name sample_logger)"
proof -
  obtain ev where ev: "build_event sample_ambient sample_logger ''signup'' ''info'' None
                         (Some ''billing'') None None = Inr ev"
    using build_event_plain by blast
  from service_field_nonempty [OF init_sample ev] ev show ?thesis by blast
qed

section \<open>The timestamp\<close>

lemma dec_nat_small: "n < 10 \<Longrightarrow> dec_nat n = [digit n]"
  by (subst dec_nat.simps) simp

lemma dec_nat_step: "10 \<le> n \<Longrightarrow> dec_nat n = dec_nat (n div 10) @ [digit (n mod 10)]"
  by (subst dec_nat.simps) simp

lemma digit_0: "digit 0 = CHR ''0''"
  by (simp add: digit_def)

lemma pad_digits_zero: "pad_digits w 0 = replicate w CHR ''0''"
  by (induction w) (simp_all add: digit_0 replicate_append_same)

lemma length_pad_digits [simp]: "length (pad_digits w n) = w"
  by (induction w arbitrary: n) simp_all

lemma length_dec_nat: "n < 10 ^ Suc w \<Longrightarrow> length (dec_nat n) \<le> Suc w"
proof (induction w arbitrary: n)
  case 0
  then show ?case by (simp add: dec_nat_small)
next
  case (Suc w)
  show ?case
  proof (cases "n < 10")
    case True
    then show ?thesis by (simp add: dec_nat_small)
  next
    case False
    then have "n div 10 < 10 ^ Suc w" using Suc.prems by simp
    from Suc.IH [OF this] False show ?thesis by (simp add: dec_nat_step)
  qed
qed

lemma zero_pad_eq: "n < 10 ^ Suc w \<Longrightarrow> zero_pad (Suc w) n = pad_digits (Suc w) n"
proof (induction w arbitrary: n)
  case 0
  then show ?case by (simp add: zero_pad_def dec_nat_small)
next
  case (Suc w)
  show ?case
  proof (cases "n < 10")
    case True
    then have "n div 10 = 0" "n mod 10 = n" by simp_all
    with True show ?thesis
      by (simp add: zero_pad_def dec_nat_small pad_digits_zero digit_0 replicate_append_same)
  next
    case False
    then have lt: "n div 10 < 10 ^ Suc w" using Suc.prems by simp
    have "zero_pad (Suc (Suc w)) n = zero_pad (Suc w) (n div 10) @ [digit (n mod 10)]"
      using False length_dec_nat [OF lt] by (simp add: zero_pad_def dec_nat_step Suc_diff_le)
    then show ?thesis using Suc.IH [OF lt] by simp
  qed
qed

lemma is_digit_digit: "k < 10 \<Longrightarrow> is_digit (digit k)"
  unfolding is_digit_def digit_def by (rule nth_mem) simp

lemma digit_value_digit: "k < 10 \<Longrightarrow> digit_value (digit k) = k"
proof -
  assume "k < 10"
  then consider "k = 0" | "k = 1" | "k = 2" | "k = 3" | "k = 4" | "k = 5" | "k = 6" | "k = 7"
    | "k = 8" | "k = 9" by atomize_elim arith
  then show ?thesis by cases (simp_all add: digit_def digit_value_def)
qed

lemma digits_pad_digits: "list_all is_digit (pad_digits w n)"
  by (induction w arbitrary: n) (simp_all add: is_digit_digit)

lemma number_snoc: "number (xs @ [c]) = 10 * number xs + digit_value c"
  by (simp add: number_def)

lemma number_pad_digits: "n < 10 ^ w \<Longrightarrow> number (pad_digits w n) = n"
proof (induction w arbitrary: n)
  case 0
  then show ?case by (simp add: number_def)
next
  case (Suc w)
  then have "n div 10 < 10 ^ w" by simp
  from Suc.IH [OF this] show ?case by (simp add: number_snoc digit_value_digit)
qed

lemma is_digit_not_plus: "is_digit c \<Longrightarrow> c \<noteq> CHR ''+''"
  by (auto simp: is_digit_def)

lemma replace_offset:
  assumes "CHR ''+'' \<notin> set s"
  shows "replace ''+00:00'' ''Z'' (s @ ''+00:00'') = s @ ''Z''"
proof -
  have "replace_nonempty ''+00:00'' ''Z'' (s @ ''+00:00'') = s @ ''Z''"
    using assms by (induction s) auto
  then show ?thesis by (simp add: replace_def)
qed

lemma parse_without_fraction:
  assumes "length y = 4" "length mo = 2" "length dd = 2" "length h = 2" "length mi = 2"
    "length s = 2"
    and "list_all is_digit y" "list_all is_digit mo" "list_all is_digit dd" "list_all is_digit h"
      "list_all is_digit mi" "list_all is_digit s"
    and "valid_datetime \<lparr> year = number y, month = number mo, day = number dd, hour = number h,
           minute = number mi, second = number s, microsecond = 0 \<rparr>"
  shows "parse_iso8601_utc (y @ ''-'' @ mo @ ''-'' @ dd @ ''T'' @ h @ '':'' @ mi @ '':'' @ s @ ''Z'')
    = Some \<lparr> year = number y, month = number mo, day = number dd, hour = number h,
           minute = number mi, second = number s, microsecond = 0 \<rparr>"
  using assms by (simp add: parse_iso8601_utc_def field_def Let_def)

lemma parse_with_fraction:
  assumes "length y = 4" "length mo = 2" "length dd = 2" "length h = 2" "length mi = 2"
    "length s = 2" "length f = 6"
    and "list_all is_digit y" "list_all is_digit mo" "list_all is_digit dd" "list_all is_digit h"
      "list_all is_digit mi" "list_all is_digit s" "list_all is_digit f"
    and "valid_datetime \<lparr> year = number y, month = number mo, day = number dd, hour = number h,
           minute = number mi, second = number s, microsecond = number f \<rparr>"
  shows "parse_iso8601_utc (y @ ''-'' @ mo @ ''-'' @ dd @ ''T'' @ h @ '':'' @ mi @ '':'' @ s @ ''.'' @ f @ ''Z'')
    = Some \<lparr> year = number y, month = number mo, day = number dd, hour = number h,
           minute = number mi, second = number s, microsecond = number f \<rparr>"
  using assms by (simp add: parse_iso8601_utc_def field_def Let_def)


lemma plus_not_in_digits: "list_all is_digit xs \<Longrightarrow> CHR ''+'' \<notin> set xs"
  by (auto simp: list_all_iff dest: is_digit_not_plus)

lemma suffix_offset_Z: "\<not> suffix ''+00:00'' (xs @ ''Z'')"
proof
  assume "suffix ''+00:00'' (xs @ ''Z'')"
  then obtain zs where "xs @ ''Z'' = zs @ ''+00:00''"
    by (auto simp: suffix_def)
  then have "last (xs @ ''Z'') = last (zs @ ''+00:00'')"
    by (rule arg_cong)
  then show False by simp
qed

lemma valid_bounds:
  assumes "valid_datetime d"
  shows "year d < 10 ^ 4" "month d < 10 ^ 2" "day d < 10 ^ 2" "hour d < 10 ^ 2"
    "minute d < 10 ^ 2" "second d < 10 ^ 2" "microsecond d < 10 ^ 6"
  using assms by (auto simp: valid_datetime_def days_in_month_def split: if_splits)

lemma zero_pad_pos: "0 < w \<Longrightarrow> n < 10 ^ w \<Longrightarrow> zero_pad w n = pad_digits w n"
  using zero_pad_eq [of n "w - 1"] by simp

lemma zero_pad_fields:
  assumes "valid_datetime d"
  shows "zero_pad 4 (year d) = pad_digits 4 (year d)"
    and "zero_pad 2 (month d) = pad_digits 2 (month d)"
    and "zero_pad 2 (day d) = pad_digits 2 (day d)"
    and "zero_pad 2 (hour d) = pad_digits 2 (hour d)"
    and "zero_pad 2 (minute d) = pad_digits 2 (minute d)"
    and "zero_pad 2 (second d) = pad_digits 2 (second d)"
    and "zero_pad 6 (microsecond d) = pad_digits 6 (microsecond d)"
  using valid_bounds [OF assms] by (simp_all only: zero_pad_pos zero_less_numeral)


lemma replace_isoformat:
  assumes "valid_datetime d"
  shows "replace ''+00:00'' ''Z'' (isoformat d) =
    pad_digits 4 (year d) @ ''-'' @ pad_digits 2 (month d) @ ''-'' @ pad_digits 2 (day d) @ ''T''
    @ pad_digits 2 (hour d) @ '':'' @ pad_digits 2 (minute d) @ '':'' @ pad_digits 2 (second d)
    @ (if microsecond d \<noteq> 0 then ''.'' @ pad_digits 6 (microsecond d) else []) @ ''Z''"
proof -
  let ?body = "pad_digits 4 (year d) @ ''-'' @ pad_digits 2 (month d) @ ''-''
    @ pad_digits 2 (day d) @ ''T'' @ pad_digits 2 (hour d) @ '':'' @ pad_digits 2 (minute d)
    @ '':'' @ pad_digits 2 (second d)
    @ (if microsecond d \<noteq> 0 then ''.'' @ pad_digits 6 (microsecond d) else [])"
  have iso: "isoformat d = ?body @ ''+00:00''"
    by (simp add: isoformat_def zero_pad_fields [OF assms])
  have "CHR ''+'' \<notin> set (pad_digits w n)" for w n
    by (rule plus_not_in_digits) (rule digits_pad_digits)
  then have "CHR ''+'' \<notin> set ?body"
    by simp
  then have "replace ''+00:00'' ''Z'' (?body @ ''+00:00'') = ?body @ ''Z''"
    by (rule replace_offset)
  then show ?thesis
    by (simp only: iso append_assoc)
qed


lemma number_fields:
  assumes "valid_datetime d"
  shows "number (pad_digits 4 (year d)) = year d"
    and "number (pad_digits 2 (month d)) = month d"
    and "number (pad_digits 2 (day d)) = day d"
    and "number (pad_digits 2 (hour d)) = hour d"
    and "number (pad_digits 2 (minute d)) = minute d"
    and "number (pad_digits 2 (second d)) = second d"
    and "number (pad_digits 6 (microsecond d)) = microsecond d"
  using valid_bounds [OF assms] by (simp_all only: number_pad_digits)

lemma parse_replace_isoformat:
  assumes "valid_datetime d"
  shows "parse_iso8601_utc (replace ''+00:00'' ''Z'' (isoformat d)) = Some d"
proof (cases "microsecond d = 0")
  case True
  have eq: "\<lparr> year = number (pad_digits 4 (year d)), month = number (pad_digits 2 (month d)),
              day = number (pad_digits 2 (day d)), hour = number (pad_digits 2 (hour d)),
              minute = number (pad_digits 2 (minute d)), second = number (pad_digits 2 (second d)),
              microsecond = 0 \<rparr> = d"
    by (rule datetime.equality) (simp_all add: number_fields [OF assms] True)
  have r: "replace ''+00:00'' ''Z'' (isoformat d) =
    pad_digits 4 (year d) @ ''-'' @ pad_digits 2 (month d) @ ''-'' @ pad_digits 2 (day d) @ ''T''
    @ pad_digits 2 (hour d) @ '':'' @ pad_digits 2 (minute d) @ '':'' @ pad_digits 2 (second d)
    @ ''Z''"
    using True by (simp only: replace_isoformat [OF assms] simp_thms if_False append_Nil)
  show ?thesis
    unfolding r
    by (subst parse_without_fraction)
       (simp_all only: length_pad_digits digits_pad_digits eq assms)
next
  case False
  have eq: "\<lparr> year = number (pad_digits 4 (year d)), month = number (pad_digits 2 (month d)),
              day = number (pad_digits 2 (day d)), hour = number (pad_digits 2 (hour d)),
              minute = number (pad_digits 2 (minute d)), second = number (pad_digits 2 (second d)),
              microsecond = number (pad_digits 6 (microsecond d)) \<rparr> = d"
    by (rule datetime.equality) (simp_all add: number_fields [OF assms])
  have r: "replace ''+00:00'' ''Z'' (isoformat d) =
    pad_digits 4 (year d) @ ''-'' @ pad_digits 2 (month d) @ ''-'' @ pad_digits 2 (day d) @ ''T''
    @ pad_digits 2 (hour d) @ '':'' @ pad_digits 2 (minute d) @ '':'' @ pad_digits 2 (second d)
    @ ''.'' @ pad_digits 6 (microsecond d) @ ''Z''"
    using False by (simp only: replace_isoformat [OF assms] simp_thms if_True append_assoc)
  show ?thesis
    unfolding r
    by (subst parse_with_fraction)
       (simp_all only: length_pad_digits digits_pad_digits eq assms)
qed

lemma replace_isoformat_suffix:
  assumes "valid_datetime d"
  shows "suffix ''Z'' (replace ''+00:00'' ''Z'' (isoformat d))"
    and "\<not> suffix ''+00:00'' (replace ''+00:00'' ''Z'' (isoformat d))"
proof -
  obtain body where r: "replace ''+00:00'' ''Z'' (isoformat d) = body @ ''Z''"
    using replace_isoformat [OF assms] by (metis append_assoc)
  show "suffix ''Z'' (replace ''+00:00'' ''Z'' (isoformat d))"
    unfolding r by (rule suffix_appendI) simp
  show "\<not> suffix ''+00:00'' (replace ''+00:00'' ''Z'' (isoformat d))"
    unfolding r by (rule suffix_offset_Z)
qed

text \<open>
  C5: when the clock reads a valid date and time, the \<^verbatim>\<open>created_at\<close> field of the
  built event is read back by the ISO-8601 UTC reader as exactly that date and time; it
  ends in \<^verbatim>\<open>Z\<close> and does not end in \<^verbatim>\<open>+00:00\<close>.
\<close>

theorem created_at_iso8601_utc:
  assumes "valid_datetime (utc_now amb)"
    and "build_event amb self event_type level data service correlation_id actor = Inr ev"
  shows "\<exists>ts. map_of ev ''created_at'' = Some ts
           \<and> parse_iso8601_utc ts = Some (utc_now amb)
           \<and> suffix ''Z'' ts \<and> \<not> suffix ''+00:00'' ts"
  using build_event_Inr [OF assms(2)] parse_replace_isoformat [OF assms(1)]
    replace_isoformat_suffix [OF assms(1)]
  by simp

theorem created_at_iso8601_utc_witness:
  "\<exists>ev ts. build_event sample_ambient sample_logger ''signup'' ''info'' None None None None = Inr ev
           \<and> map_of ev ''created_at'' = Some ts
           \<and> parse_iso8601_utc ts = Some (utc_now sample_ambient)
           \<and> suffix ''Z'' ts \<and> \<not> suffix ''+00:00'' ts"
proof -
  have v: "valid_datetime (utc_now sample_ambient)"
    by (simp add: sample_ambient_def valid_datetime_def days_in_month_def is_leap_def)
  obtain ev where ev: "build_event sample_ambient sample_logger ''signup'' ''info'' None None
                         None None = Inr ev"
    using build_event_plain by blast
  from created_at_iso8601_utc [OF v ev] ev show ?thesis by blast
qed

section \<open>The actor and data fields\<close>

lemma is_hex_hex_digit: "k < 16 \<Longrightarrow> is_hex (hex_digit k)"
proof -
  assume "k < 16"
  then have "hex_digit k \<in> set ''0123456789abcdef''"
    unfolding hex_digit_def by (intro nth_mem) simp
  then show ?thesis by (auto simp: is_hex_def)
qed

lemma json_chars_escape_char: "json_chars (escape_char c @ cs) = json_chars cs"
proof -
  have lt: "of_char c div 4096 mod 16 < (16::nat)" "of_char c div 256 mod 16 < (16::nat)"
    "of_char c div 16 mod 16 < (16::nat)" "of_char c mod 16 < (16::nat)"
    by simp_all
  note h = lt [THEN is_hex_hex_digit]
  show ?thesis
    using h by (simp add: escape_char_def Let_def not_less)
qed

lemma json_chars_concat: "json_chars (concat (map escape_char s) @ cs) = json_chars cs"
  by (induction s) (simp_all add: json_chars_escape_char)

lemma json_string_encode: "json_string (encode_basestring_ascii s)"
  unfolding json_string_def encode_basestring_ascii_def
  using json_chars_concat [of s "[]"] by auto

lemma digits_dec_nat: "list_all is_digit (dec_nat n)"
proof (induction n rule: dec_nat.induct)
  case (1 n)
  show ?case
  proof (cases "n < 10")
    case True
    then show ?thesis by (simp add: dec_nat_small is_digit_digit)
  next
    case False
    with 1 show ?thesis by (simp add: dec_nat_step is_digit_digit)
  qed
qed

lemma dec_nat_nonempty: "dec_nat n \<noteq> []"
  by (subst dec_nat.simps) simp

lemma digit_eq_0: "k < 10 \<Longrightarrow> digit k = CHR ''0'' \<Longrightarrow> k = 0"
  using digit_value_digit [of k] by (simp add: digit_value_def)

lemma hd_dec_nat: "hd (dec_nat n) = CHR ''0'' \<Longrightarrow> n = 0"
proof (induction n rule: dec_nat.induct)
  case (1 n)
  show ?case
  proof (cases "n < 10")
    case True
    with "1.prems" show ?thesis by (simp add: dec_nat_small digit_eq_0)
  next
    case False
    then have "hd (dec_nat (n div 10)) = CHR ''0''"
      using "1.prems" by (simp add: dec_nat_step dec_nat_nonempty)
    with 1 False have "n div 10 = 0" by simp
    with False show ?thesis by simp
  qed
qed

lemma json_number_str_int: "json_number (str_int i)"
proof -
  have "json_number (sign @ dec_nat n)" if "sign = [] \<or> sign = ''-''" for sign n
    unfolding json_number_def
  proof (intro exI conjI)
    show "sign @ dec_nat n = sign @ dec_nat n @ [] @ []" by simp
    show "sign = [] \<or> sign = ''-''" by (rule that)
    show "json_digits (dec_nat n)"
      by (simp add: json_digits_def dec_nat_nonempty digits_dec_nat)
    show "hd (dec_nat n) = CHR ''0'' \<longrightarrow> dec_nat n = ''0''"
      using hd_dec_nat [of n] by (auto simp: dec_nat_small digit_0)
  qed simp_all
  from this [of "[]"] this [of "''-''"] show ?thesis
    by (simp add: str_int_def)
qed

lemma json_numberI:
  assumes "sign = [] \<or> sign = ''-''"
    and "json_digits i" and "hd i = CHR ''0'' \<longrightarrow> i = ''0''"
    and "frac = [] \<or> (\<exists>ds. frac = CHR ''.'' # ds \<and> json_digits ds)"
    and "ex = [] \<or> (\<exists>e sg ds. ex = e # sg @ ds \<and> (e = CHR ''e'' \<or> e = CHR ''E'')
                           \<and> (sg = [] \<or> sg = ''+'' \<or> sg = ''-'') \<and> json_digits ds)"
  shows "json_number (sign @ i @ frac @ ex)"
  unfolding json_number_def using assms by blast

lemma json_digits_dec_nat: "json_digits (dec_nat n)"
  by (simp add: json_digits_def dec_nat_nonempty digits_dec_nat)

lemma digits_zeros: "list_all is_digit (replicate k CHR ''0'')"
  by (induction k) (simp_all add: is_digit_def)

lemma json_digits_zero_pad: "json_digits (zero_pad w n)"
  by (simp add: json_digits_def zero_pad_def dec_nat_nonempty digits_dec_nat digits_zeros)

lemma json_digits_zeros_left: "json_digits ds \<Longrightarrow> json_digits (replicate k CHR ''0'' @ ds)"
  by (simp add: json_digits_def digits_zeros)

lemma json_digits_zeros_right: "json_digits ds \<Longrightarrow> json_digits (ds @ replicate k CHR ''0'')"
  by (simp add: json_digits_def digits_zeros)

lemma json_number_exponentI:
  assumes "sign = [] \<or> sign = ''-''"
    and "json_digits i" and "hd i = CHR ''0'' \<longrightarrow> i = ''0''"
    and "frac = [] \<or> (\<exists>ds. frac = CHR ''.'' # ds \<and> json_digits ds)"
    and "sg = ''+'' \<or> sg = ''-''" and "json_digits xs"
  shows "json_number (sign @ i @ frac @ (CHR ''e'' # sg @ xs))"
  using assms(5,6) by (intro json_numberI [OF assms(1-4)]) blast

lemma length_dec_nat_0: "length (dec_nat 0) = 1"
  by (simp add: dec_nat_small)

lemma json_number_float_repr: "json_number (float_repr negative m decpt)"
proof -
  define ds where "ds = dec_nat m"
  define p where "p = (if m = 0 then 1 else decpt)"
  define sign where "sign = (if negative then ''-'' else [])"
  have sign: "sign = [] \<or> sign = ''-''"
    by (simp add: sign_def)
  have ds: "json_digits ds"
    by (simp add: ds_def json_digits_dec_nat)
  then have ne: "ds \<noteq> []" and dig: "list_all is_digit ds"
    by (simp_all add: json_digits_def)
  have lead: "hd ds = CHR ''0'' \<Longrightarrow> m = 0"
    unfolding ds_def by (rule hd_dec_nat)
  have zero: "m = 0 \<Longrightarrow> p = 1 \<and> length ds = 1"
    by (simp add: p_def ds_def length_dec_nat_0)
  have repr: "float_repr negative m decpt = sign @
        (if p \<le> - 4 \<or> 16 < p then
           hd ds # (if tl ds = [] then [] else ''.'' @ tl ds)
             @ ''e'' @ (if p - 1 < 0 then ''-'' else ''+'') @ zero_pad 2 (nat (abs (p - 1)))
         else if p \<le> 0 then ''0.'' @ replicate (nat (- p)) CHR ''0'' @ ds
         else if int (length ds) \<le> p then ds @ replicate (nat (p - int (length ds))) CHR ''0'' @ ''.0''
         else take (nat p) ds @ ''.'' @ drop (nat p) ds)"
    by (simp add: float_repr_def Let_def ds_def p_def sign_def)
  consider (exponent) "p \<le> - 4 \<or> 16 < p"
    | (small) "\<not> (p \<le> - 4 \<or> 16 < p)" "p \<le> 0"
    | (integral) "\<not> (p \<le> - 4 \<or> 16 < p)" "0 < p" "int (length ds) \<le> p"
    | (point) "\<not> (p \<le> - 4 \<or> 16 < p)" "0 < p" "p < int (length ds)"
    by linarith
  then show ?thesis
  proof cases
    case exponent
    have h: "is_digit (hd ds)" and t: "list_all is_digit (tl ds)"
      using ne dig by (cases ds; simp)+
    have "json_number (sign @ [hd ds] @ (if tl ds = [] then [] else CHR ''.'' # tl ds)
            @ (CHR ''e'' # (if p - 1 < 0 then ''-'' else ''+'') @ zero_pad 2 (nat (abs (p - 1)))))"
    proof (rule json_number_exponentI [OF sign])
      show "json_digits [hd ds]" using h by (simp add: json_digits_def)
      show "hd [hd ds] = CHR ''0'' \<longrightarrow> [hd ds] = ''0''" by simp
      show "(if tl ds = [] then [] else CHR ''.'' # tl ds) = [] \<or>
        (\<exists>xs. (if tl ds = [] then [] else CHR ''.'' # tl ds) = CHR ''.'' # xs \<and> json_digits xs)"
        using t by (simp add: json_digits_def)
      show "(if p - 1 < 0 then ''-'' else ''+'') = ''+'' \<or> (if p - 1 < 0 then ''-'' else ''+'') = ''-''"
        by simp
      show "json_digits (zero_pad 2 (nat (abs (p - 1))))"
        by (rule json_digits_zero_pad)
    qed
    moreover have "float_repr negative m decpt =
        sign @ [hd ds] @ (if tl ds = [] then [] else CHR ''.'' # tl ds)
          @ (CHR ''e'' # (if p - 1 < 0 then ''-'' else ''+'') @ zero_pad 2 (nat (abs (p - 1))))"
      using exponent by (simp add: repr)
    ultimately show ?thesis by (simp only:)
  next
    case small
    have "json_number (sign @ ''0'' @ (CHR ''.'' # replicate (nat (- p)) CHR ''0'' @ ds) @ [])"
    proof (rule json_numberI [OF sign])
      show "json_digits ''0''" by (simp add: json_digits_def is_digit_def)
      show "(CHR ''.'' # replicate (nat (- p)) CHR ''0'' @ ds) = [] \<or>
        (\<exists>xs. (CHR ''.'' # replicate (nat (- p)) CHR ''0'' @ ds) = CHR ''.'' # xs \<and> json_digits xs)"
        using json_digits_zeros_left [OF ds] by simp
    qed simp_all
    then show ?thesis using small by (simp add: repr)
  next
    case integral
    have "json_number (sign @ (ds @ replicate (nat (p - int (length ds))) CHR ''0'') @ ''.0'' @ [])"
    proof (rule json_numberI [OF sign])
      show "json_digits (ds @ replicate (nat (p - int (length ds))) CHR ''0'')"
        by (rule json_digits_zeros_right [OF ds])
      show "hd (ds @ replicate (nat (p - int (length ds))) CHR ''0'') = CHR ''0'' \<longrightarrow>
            ds @ replicate (nat (p - int (length ds))) CHR ''0'' = ''0''"
      proof
        assume "hd (ds @ replicate (nat (p - int (length ds))) CHR ''0'') = CHR ''0''"
        then have "hd ds = CHR ''0''" using ne by simp
        then have m: "m = 0" by (rule lead)
        then have "ds = ''0''" by (simp add: ds_def dec_nat_small digit_0)
        with zero [OF m] show "ds @ replicate (nat (p - int (length ds))) CHR ''0'' = ''0''"
          by simp
      qed
      show "''.0'' = [] \<or> (\<exists>xs. ''.0'' = CHR ''.'' # xs \<and> json_digits xs)"
        by (simp add: json_digits_def is_digit_def)
    qed simp
    then show ?thesis using integral by (simp add: repr)
  next
    case point
    have k: "0 < nat p" "nat p < length ds"
      using point by simp_all
    have "json_number (sign @ take (nat p) ds @ (CHR ''.'' # drop (nat p) ds) @ [])"
    proof (rule json_numberI [OF sign])
      show "json_digits (take (nat p) ds)"
        using k ne dig by (auto simp: json_digits_def list_all_iff dest: in_set_takeD)
      show "hd (take (nat p) ds) = CHR ''0'' \<longrightarrow> take (nat p) ds = ''0''"
      proof
        assume "hd (take (nat p) ds) = CHR ''0''"
        then have "hd ds = CHR ''0''" using k by (simp add: hd_take)
        then have "m = 0" by (rule lead)
        from zero [OF this] k show "take (nat p) ds = ''0''" by simp
      qed
      show "(CHR ''.'' # drop (nat p) ds) = [] \<or>
        (\<exists>xs. (CHR ''.'' # drop (nat p) ds) = CHR ''.'' # xs \<and> json_digits xs)"
        using k dig by (auto simp: json_digits_def list_all_iff dest: in_set_dropD)
    qed simp
    then show ?thesis using point by (simp add: repr)
  qed
qed

lemma json_number_floatstr:
  assumes "f \<noteq> NaN" and "f \<noteq> PosInf" and "f \<noteq> NegInf"
  shows "json_number (floatstr f)"
  using assms by (cases f) (simp_all add: json_number_float_repr)

lemma json_elements_join:
  assumes "xs \<noteq> []" and "\<forall>x \<in> set xs. json_value x" and "json_ws w"
  shows "json_elements (w @ join '', '' xs)"
  using assms
proof (induction "'', ''" xs arbitrary: w rule: join.induct)
  case 1
  then show ?case by simp
next
  case (2 x)
  have "json_elements (w @ x @ [])"
    using 2 by (intro elements_one) (simp_all add: json_ws_def)
  then show ?case by simp
next
  case (3 x y ys)
  have rest: "json_elements ('' '' @ join '', '' (y # ys))"
    using 3 by (intro "3.hyps") (simp_all add: json_ws_def ws_char_def)
  have "json_elements (w @ x @ [] @ '','' @ ('' '' @ join '', '' (y # ys)))"
    using 3 rest by (intro elements_more) (simp_all add: json_ws_def)
  then show ?case by simp
qed

lemma json_members_join:
  assumes "kvs \<noteq> []" and "\<forall>kv \<in> set kvs. json_value (f (snd kv))" and "json_ws w"
  shows "json_members
           (w @ join '', '' (map (\<lambda>kv. encode_basestring_ascii (fst kv) @ '': '' @ f (snd kv)) kvs))"
  using assms
proof (induction kvs arbitrary: w)
  case Nil
  then show ?case by simp
next
  case (Cons kv kvs)
  show ?case
  proof (cases kvs)
    case Nil
    have "json_members (w @ encode_basestring_ascii (fst kv) @ [] @ '':'' @ '' ''
                          @ f (snd kv) @ [])"
      using Cons.prems
      by (intro members_one) (simp_all add: json_ws_def ws_char_def json_string_encode)
    with Nil show ?thesis by simp
  next
    case (Cons kv' kvs')
    have rest: "json_members ('' '' @ join '', ''
                  (map (\<lambda>kv. encode_basestring_ascii (fst kv) @ '': '' @ f (snd kv)) kvs))"
      using Cons.prems Cons by (intro Cons.IH) (simp_all add: json_ws_def ws_char_def)
    have "json_members (w @ encode_basestring_ascii (fst kv) @ [] @ '':'' @ '' ''
                          @ f (snd kv) @ [] @ '','' @ ('' '' @ join '', ''
                  (map (\<lambda>kv. encode_basestring_ascii (fst kv) @ '': '' @ f (snd kv)) kvs)))"
      using Cons.prems rest
      by (intro members_more) (simp_all add: json_ws_def ws_char_def json_string_encode)
    with Cons show ?thesis by simp
  qed
qed

lemma first_some_None: "first_some xs = None \<longleftrightarrow> (\<forall>x \<in> set xs. x = None)"
  by (induction xs rule: first_some.induct) auto

lemma json_value_encode:
  "unserializable v = None \<Longrightarrow> finite_floats v \<Longrightarrow> json_value (encode v)"
proof (induction v)
  case PNone
  show ?case by (simp add: value_null [simplified])
next
  case (PBool b)
  show ?case using value_true value_false by simp
next
  case (PInt i)
  show ?case by (simp add: value_number json_number_str_int)
next
  case (PFloat f)
  then show ?case by (simp add: value_number json_number_floatstr)
next
  case (PStr s)
  show ?case by (simp add: value_string json_string_encode)
next
  case (PList xs)
  have all: "\<forall>x \<in> set (map encode xs). json_value x"
    using PList by (auto simp: first_some_None)
  show ?case
  proof (cases xs)
    case Nil
    have "json_array (''['' @ [] @ '']'')"
      by (rule array_empty) (simp add: json_ws_def)
    with Nil show ?thesis by (simp add: value_array)
  next
    case (Cons y ys)
    then have "json_elements ([] @ join '', '' (map encode xs))"
      using all by (intro json_elements_join) (simp_all add: json_ws_def)
    then have "json_array (''['' @ join '', '' (map encode xs) @ '']'')"
      using array_elements by simp
    then show ?thesis by (simp add: value_array)
  qed
next
  case (PDict kvs)
  have all: "\<forall>kv \<in> set kvs. json_value (encode (snd kv))"
  proof
    fix kv assume kv: "kv \<in> set kvs"
    then have "unserializable (snd kv) = None"
      using PDict.prems by (auto simp: first_some_None)
    moreover have "finite_floats (snd kv)"
      using PDict.prems kv by simp
    moreover have "snd kv \<in> Basic_BNFs.snds kv"
      by (cases kv) simp
    ultimately show "json_value (encode (snd kv))"
      using PDict.IH kv by blast
  qed
  show ?case
  proof (cases kvs)
    case Nil
    have "json_object (''{'' @ [] @ ''}'')"
      by (rule object_empty) (simp add: json_ws_def)
    with Nil show ?thesis by (simp add: value_object)
  next
    case (Cons y ys)
    then have "json_members ([] @ join '', ''
                 (map (\<lambda>kv. encode_basestring_ascii (fst kv) @ '': '' @ encode (snd kv)) kvs))"
      using all by (intro json_members_join) (simp_all add: json_ws_def)
    then have "json_object (''{'' @ join '', ''
                 (map (\<lambda>kv. encode_basestring_ascii (fst kv) @ '': '' @ encode (snd kv)) kvs) @ ''}'')"
      using object_members by simp
    then show ?thesis by (simp add: value_object)
  qed
next
  case (PObject t)
  then show ?case by simp
qed

lemma json_object_encode_dict:
  assumes "unserializable (PDict kvs) = None" and "finite_floats (PDict kvs)"
  shows "json_object (encode (PDict kvs))"
proof (cases kvs)
  case Nil
  have "json_object (''{'' @ [] @ ''}'')"
    by (rule object_empty) (simp add: json_ws_def)
  with Nil show ?thesis by simp
next
  case (Cons y ys)
  have "\<forall>kv \<in> set kvs. json_value (encode (snd kv))"
    using assms by (auto simp: first_some_None intro: json_value_encode)
  then have "json_members ([] @ join '', ''
               (map (\<lambda>kv. encode_basestring_ascii (fst kv) @ '': '' @ encode (snd kv)) kvs))"
    using Cons by (intro json_members_join) (simp_all add: json_ws_def)
  then have "json_object (''{'' @ join '', ''
               (map (\<lambda>kv. encode_basestring_ascii (fst kv) @ '': '' @ encode (snd kv)) kvs) @ ''}'')"
    using object_members by simp
  then show ?thesis by simp
qed

lemma json_object_not_array: "\<not> json_object ''[]''"
  by (auto elim: json_object.cases)

lemma encode_omitted: "a = None \<or> a = Some [] \<Longrightarrow> encode (PDict (or_empty a)) = ''{}''"
  by (auto simp: or_empty_def)

text \<open>Every JSON value begins with one of a few characters, none of them \<^verbatim>\<open>N\<close>.\<close>

lemma json_number_start:
  assumes "json_number s"
  shows "s \<noteq> [] \<and> hd s \<in> set ''-0123456789''"
proof -
  obtain sign i frac ex where s: "s = sign @ i @ frac @ ex"
    and sign: "sign = [] \<or> sign = ''-''" and i: "json_digits i"
    using assms unfolding json_number_def by blast
  from i have "i \<noteq> []" and "is_digit (hd i)"
    by (cases i; simp add: json_digits_def)+
  then show ?thesis
    using sign by (auto simp: s is_digit_def)
qed

lemma json_value_start:
  assumes "json_value v"
  shows "v \<noteq> [] \<and> hd v \<in> set (''ntf-0123456789[{'' @ [CHR 0x22])"
  using assms
proof (cases rule: json_value.cases)
  case value_number
  then show ?thesis using json_number_start [of v] by auto
next
  case value_string
  then show ?thesis by (auto simp: json_string_def)
next
  case value_array
  then show ?thesis by (auto elim: json_array.cases)
next
  case value_object
  then show ?thesis by (auto elim: json_object.cases)
qed simp_all

lemma nth_after_prefix: "v \<noteq> [] \<Longrightarrow> (pre @ v @ rest) ! length pre = hd v"
  by (cases v) simp_all

lemma json_members_value_position:
  assumes "json_members ms"
  shows "\<exists>i. 3 \<le> i \<and> i < length ms \<and> ms ! i \<in> set (''ntf-0123456789[{'' @ [CHR 0x22])"
  using assms
proof (cases rule: json_members.cases)
  case (members_one w1 k w2 w3 v w4)
  let ?pre = "w1 @ k @ w2 @ '':'' @ w3"
  have v: "v \<noteq> []" "hd v \<in> set (''ntf-0123456789[{'' @ [CHR 0x22])"
    using json_value_start [OF members_one(6)] by simp_all
  have ms: "ms = ?pre @ v @ w4"
    using members_one(1) by simp
  have "2 \<le> length k"
    using members_one(3) by (auto simp: json_string_def)
  then have "3 \<le> length ?pre" by simp
  moreover have "length ?pre < length ms"
    using v(1) by (simp add: ms)
  moreover have "ms ! length ?pre = hd v"
    unfolding ms using v(1) by (rule nth_after_prefix)
  ultimately show ?thesis using v(2) by metis
next
  case (members_more w1 k w2 w3 v w4 ms')
  let ?pre = "w1 @ k @ w2 @ '':'' @ w3"
  have v: "v \<noteq> []" "hd v \<in> set (''ntf-0123456789[{'' @ [CHR 0x22])"
    using json_value_start [OF members_more(6)] by simp_all
  have ms: "ms = ?pre @ v @ (w4 @ '','' @ ms')"
    using members_more(1) by simp
  have "2 \<le> length k"
    using members_more(3) by (auto simp: json_string_def)
  then have "3 \<le> length ?pre" by simp
  moreover have "length ?pre < length ms"
    using v(1) by (simp add: ms)
  moreover have "ms ! length ?pre = hd v"
    unfolding ms using v(1) by (rule nth_after_prefix)
  ultimately show ?thesis using v(2) by metis
qed

lemma nan_object_not_json:
  "\<not> json_object (CHR ''{'' # CHR 0x22 # CHR ''x'' # CHR 0x22 # '': NaN}'')"
proof
  assume "json_object (CHR ''{'' # CHR 0x22 # CHR ''x'' # CHR 0x22 # '': NaN}'')"
  then show False
  proof (cases rule: json_object.cases)
    case (object_empty w)
    then have "w @ ''}'' = (CHR 0x22 # CHR ''x'' # CHR 0x22 # '': NaN'') @ ''}''"
      by simp
    then have "w = CHR 0x22 # CHR ''x'' # CHR 0x22 # '': NaN''"
      by (simp only: append_same_eq)
    with object_empty(2) show False
      by (simp add: json_ws_def ws_char_def)
  next
    case (object_members ms)
    then have "ms @ ''}'' = (CHR 0x22 # CHR ''x'' # CHR 0x22 # '': NaN'') @ ''}''"
      by simp
    then have ms: "ms = CHR 0x22 # CHR ''x'' # CHR 0x22 # '': NaN''"
      by (simp only: append_same_eq)
    obtain i where i: "3 \<le> i" "i < length ms"
      and at: "ms ! i \<in> set (''ntf-0123456789[{'' @ [CHR 0x22])"
      using json_members_value_position [OF object_members(2)] by blast
    from i have "i = 3 \<or> i = 4 \<or> i = 5 \<or> i = 6 \<or> i = 7"
      by (simp add: ms) arith
    with at show False
      by (auto simp: ms)
  qed
qed

text \<open>
  C4 (as stated): for every serialisable input the \<^verbatim>\<open>actor\<close> and \<^verbatim>\<open>data\<close> fields
  are JSON object texts. On the code, \<^verbatim>\<open>data={"x": float("nan")}\<close> is serialised
  without error as \<^verbatim>\<open>{"x": NaN}\<close>, which is not a JSON text.
\<close>

theorem nan_data_counterexample:
  "field_of (build_event sample_ambient sample_logger ''signup'' ''info''
               (Some [(''x'', PFloat NaN)]) None None None) ''data''
     = Some (CHR ''{'' # CHR 0x22 # CHR ''x'' # CHR 0x22 # '': NaN}'')
   \<and> \<not> json_object (CHR ''{'' # CHR 0x22 # CHR ''x'' # CHR 0x22 # '': NaN}'')"
proof -
  have "field_of (build_event sample_ambient sample_logger ''signup'' ''info''
               (Some [(''x'', PFloat NaN)]) None None None) ''data''
     = Some (CHR ''{'' # CHR 0x22 # CHR ''x'' # CHR 0x22 # '': NaN}'')"
    by (simp add: field_of_def build_event_def or_empty_def json_dumps_def Let_def
          encode_basestring_ascii_def escape_char_def)
  with nan_object_not_json show ?thesis by simp
qed

text \<open>
  C4 (amended): when \<^verbatim>\<open>actor\<close> and \<^verbatim>\<open>data\<close> can be serialised and contain no float
  that is not-a-number or an infinity, the build returns an event whose \<^verbatim>\<open>actor\<close> and
  \<^verbatim>\<open>data\<close> fields are present and are JSON object texts, and each is \<^verbatim>\<open>{}\<close> when
  its argument is \<^verbatim>\<open>None\<close> (or the empty dictionary).
\<close>

theorem actor_data_json_objects:
  assumes "unserializable (PDict (or_empty actor)) = None"
    and "unserializable (PDict (or_empty data)) = None"
    and "finite_floats (PDict (or_empty actor))"
    and "finite_floats (PDict (or_empty data))"
  shows "\<exists>ev a d. build_event amb self event_type level data service correlation_id actor = Inr ev
           \<and> map_of ev ''actor'' = Some a \<and> map_of ev ''data'' = Some d
           \<and> json_object a \<and> json_object d
           \<and> (actor = None \<or> actor = Some [] \<longrightarrow> a = ''{}'')
           \<and> (data = None \<or> data = Some [] \<longrightarrow> d = ''{}'')"
proof -
  obtain ev where
    ev: "build_event amb self event_type level data service correlation_id actor = Inr ev"
    using build_event_returns [OF assms(1,2)] by blast
  have "map_of ev ''actor'' = Some (encode (PDict (or_empty actor)))"
    and "map_of ev ''data'' = Some (encode (PDict (or_empty data)))"
    using build_event_Inr [OF ev] by simp_all
  moreover have "json_object (encode (PDict (or_empty actor)))"
    and "json_object (encode (PDict (or_empty data)))"
    using json_object_encode_dict [OF assms(1,3)] json_object_encode_dict [OF assms(2,4)]
    by simp_all
  ultimately show ?thesis
    using ev encode_omitted [of actor] encode_omitted [of data] by blast
qed

theorem actor_data_json_objects_witness:
  "\<exists>ev a d. build_event sample_ambient sample_logger ''signup'' ''info''
               (Some [(''user'', PStr ''abc''), (''price'', PFloat (Finite False 1999 2)),
                      (''items'', PList [PInt 3, PNone])]) None None None
               = Inr ev
           \<and> map_of ev ''actor'' = Some a \<and> map_of ev ''data'' = Some d
           \<and> json_object a \<and> json_object d \<and> a = ''{}''"
proof -
  have a: "unserializable (PDict (or_empty None)) = None" "finite_floats (PDict (or_empty None))"
    by (simp_all add: or_empty_def)
  have d: "unserializable (PDict (or_empty
             (Some [(''user'', PStr ''abc''), (''price'', PFloat (Finite False 1999 2)),
                    (''items'', PList [PInt 3, PNone])]))) = None"
    "finite_floats (PDict (or_empty
             (Some [(''user'', PStr ''abc''), (''price'', PFloat (Finite False 1999 2)),
                    (''items'', PList [PInt 3, PNone])])))"
    by (simp_all add: or_empty_def)
  from actor_data_json_objects [OF a(1) d(1) a(2) d(2),
      of sample_ambient sample_logger "''signup''" "''info''" None None]
  show ?thesis by blast
qed

section \<open>The global logger\<close>

text \<open>
  C8: in the initial state of the module, \<^verbatim>\<open>get_event_logger\<close> returns the no-op
  logger, and every attribute of the no-op logger, called with any arguments, returns the
  empty dictionary and \<^verbatim>\<open>None\<close>.
\<close>

theorem get_event_logger_uninitialized:
  "fst (get_event_logger initial_state) = NoOp
   \<and> NoOpEventLogger_getattr name args = ([], None)"
  by (simp add: get_event_logger_def initial_state_def NoOpEventLogger_getattr_def noop_def)

text \<open>
  C10: when the constructor raises inside \<^verbatim>\<open>init_event_logger\<close>, the global logger
  is what it was: \<^verbatim>\<open>get_event_logger\<close> returns what it returned before, and the no-op
  logger when nothing was installed.
\<close>

theorem init_event_logger_failure_keeps_state:
  assumes "fst (fst (init_event_logger G environ st p t e s c)) = Inl ex"
  shows "snd (init_event_logger G environ st p t e s c) = st
     \<and> get_event_logger (snd (init_event_logger G environ st p t e s c)) = get_event_logger st
     \<and> (st = None \<longrightarrow>
          fst (get_event_logger (snd (init_event_logger G environ st p t e s c))) = NoOp)"
  using assms
  by (auto simp: init_event_logger_def get_event_logger_def split: prod.splits sum.splits)

theorem init_event_logger_failure_keeps_state_witness:
  "snd (init_event_logger gcp_ok [] (Some (Real sample_logger)) None None None None None)
     = Some (Real sample_logger)
   \<and> fst (get_event_logger (snd (init_event_logger gcp_ok [] (Some (Real sample_logger))
              None None None None None))) = Real sample_logger"
proof -
  have "fst (fst (init_event_logger gcp_ok [] (Some (Real sample_logger)) None None None None None))
          = Inl (ValueError ''Missing required config for EventLogger: LOG_GCP_PROJECT / project_id, LOG_ENVIRONMENT / environment, LOG_SERVICE_NAME / service_name, LOG_GCP_CREDENTIALS / credentials_path'')"
    by (simp add: init_event_logger_def init_defs)
  from init_event_logger_failure_keeps_state [OF this] show ?thesis
    by (simp add: get_event_logger_def)
qed

end
